theory Spec2Isabelle
  imports Main "HOL-Library.Sublist" "HOL-Library.Word"
begin

section \<open>Python values: text, bytes, exceptions\<close>

text \<open>
  A Python \<open>str\<close> is a sequence of Unicode code points, so \<open>len\<close> counts code points;
  a \<open>bytes\<close> object is a sequence of octets. A function of the module whose name starts
  with an underscore is written without it: \<open>_parse_patch\<close> is \<open>parse_patch\<close>.
\<close>

type_synonym pystr = "nat list"
type_synonym byte = "8 word"

abbreviation ch :: "char \<Rightarrow> nat" where
  "ch c \<equiv> of_char c"

definition ustr :: "string \<Rightarrow> pystr" where
  "ustr cs = map of_char cs"

abbreviation NUL :: nat where "NUL \<equiv> 0"
abbreviation NL :: nat where "NL \<equiv> 10"

datatype exn =
    ValueError pystr
  | IndexError pystr
  | OSError pystr
  | AssertionError pystr
  | ExternalError pystr
  | PatchParseError pystr

text \<open>\<open>str(exc)\<close>: the message the exception was built with.\<close>

fun exn_str :: "exn \<Rightarrow> pystr" where
  "exn_str (ValueError m) = m"
| "exn_str (IndexError m) = m"
| "exn_str (OSError m) = m"
| "exn_str (AssertionError m) = m"
| "exn_str (ExternalError m) = m"
| "exn_str (PatchParseError m) = m"

subsection \<open>The string methods the parser uses\<close>

text \<open>\<open>s.rstrip(chars)\<close>: drop the longest suffix made of characters of \<open>chars\<close>.\<close>

definition str_rstrip :: "pystr \<Rightarrow> pystr \<Rightarrow> pystr" where
  "str_rstrip chars s = rev (dropWhile (\<lambda>c. c \<in> set chars) (rev s))"

text \<open>
  \<open>s.split(sep)\<close> for a non-empty \<open>sep\<close> (every call site passes a literal): the
  occurrences are found left to right and do not overlap; the result is never empty.
\<close>

fun cons_first :: "'a \<Rightarrow> 'a list list \<Rightarrow> 'a list list" where
  "cons_first c [] = [[c]]"
| "cons_first c (t # ts) = (c # t) # ts"

fun str_split :: "pystr \<Rightarrow> pystr \<Rightarrow> pystr list" where
  "str_split sep [] = [[]]"
| "str_split sep (c # cs) =
     (if prefix sep (c # cs) then [] # str_split sep (drop (length sep - 1) cs)
      else cons_first c (str_split sep cs))"

text \<open>\<open>s.split(sep, 1)\<close>: \<open>None\<close> stands for the one-element answer \<open>[s]\<close>,
  \<open>Some (a, b)\<close> for \<open>[a, b]\<close>, cut at the first occurrence of \<open>sep\<close>.\<close>

fun str_split1 :: "pystr \<Rightarrow> pystr \<Rightarrow> (pystr \<times> pystr) option" where
  "str_split1 sep [] = None"
| "str_split1 sep (c # cs) =
     (if prefix sep (c # cs) then Some ([], drop (length sep - 1) cs)
      else (case str_split1 sep cs of
              None \<Rightarrow> None
            | Some (a, b) \<Rightarrow> Some (c # a, b)))"

text \<open>\<open>s.rsplit(c, 1)[-1]\<close> for a one-character separator: what follows the last
  occurrence of \<open>c\<close>, the whole of \<open>s\<close> when there is none.\<close>

definition str_rsplit1_last :: "nat \<Rightarrow> pystr \<Rightarrow> pystr" where
  "str_rsplit1_last c s = rev (takeWhile (\<lambda>x. x \<noteq> c) (rev s))"

text \<open>\<open>s.index(sub)\<close>: the first position where \<open>sub\<close> occurs; \<open>None\<close> is the
  \<open>ValueError\<close> of a missing substring.\<close>

fun str_index :: "pystr \<Rightarrow> pystr \<Rightarrow> nat option" where
  "str_index sub [] = (if sub = [] then Some 0 else None)"
| "str_index sub (c # cs) =
     (if prefix sub (c # cs) then Some 0 else map_option Suc (str_index sub cs))"

section \<open>Patch header lines\<close>

text \<open>
  Modelled from the spec: the enumeration \<open>Filemode\<close> of \<open>ggshield.core.utils\<close>, which
  is imported by the source but not part of it. The spec calls it ChangeKind with the
  members Added, Modified, Deleted, Renamed and File; the source refers to them as
  \<open>NEW\<close>, \<open>MODIFY\<close>, \<open>DELETE\<close>, \<open>RENAME\<close> and \<open>FILE\<close>.
\<close>

datatype Filemode = MODIFY | DELETE | NEW | RENAME | FILE

definition digits :: pystr where
  "digits = ustr ''0123456789''"

text \<open>The status field of a prefix: \<open>prefix.rsplit(" ", 1)[-1].rstrip("0123456789")\<close>.\<close>

definition status_of :: "pystr \<Rightarrow> pystr" where
  "status_of pfx = str_rstrip digits (str_rsplit1_last (ch CHR '' '') pfx)"

definition unknown_status :: "pystr \<Rightarrow> pystr \<Rightarrow> exn" where
  "unknown_status line status =
     ValueError (ustr ''Can't parse header line '' @ line @ ustr '': unknown status '' @ status)"

definition resolve_status :: "pystr \<Rightarrow> pystr \<Rightarrow> pystr \<Rightarrow> exn + (pystr \<times> Filemode)" where
  "resolve_status line name status =
     (if ch CHR ''M'' \<in> set status then Inr (name, MODIFY)
      else if ch CHR ''C'' \<in> set status then Inr (name, NEW)
      else if ch CHR ''A'' \<in> set status then Inr (name, NEW)
      else if ch CHR ''T'' \<in> set status then Inr (name, NEW)
      else if ch CHR ''R'' \<in> set status then Inr (name, RENAME)
      else if ch CHR ''D'' \<in> set status then Inr (name, DELETE)
      else Inl (unknown_status line status))"

text \<open>
  \<open>_parse_patch_header_line\<close>. The starred assignment
  \<open>prefix, name, *rest = line.rstrip("\0").split("\0")\<close> needs two tokens at least and
  raises \<open>ValueError\<close> otherwise.
\<close>

definition parse_patch_header_line :: "pystr \<Rightarrow> exn + (pystr \<times> Filemode)" where
  "parse_patch_header_line line =
     (case str_split [NUL] (str_rstrip [NUL] line) of
        pfx # name # rest \<Rightarrow>
          resolve_status line (case rest of [] \<Rightarrow> name | new_name # _ \<Rightarrow> new_name)
            (status_of pfx)
      | _ \<Rightarrow> Inl (ValueError (ustr ''not enough values to unpack (expected at least 2, got 1)'')))"


section \<open>The whole header\<close>

text \<open>
  \<open>_RX_HEADER_LINE_SEPARATOR.split(header)\<close>, the pattern being \<open>[\n\0]:\<close>: a newline
  or a NUL followed by a colon. A match is two characters long and two matches cannot
  overlap.
\<close>

fun RX_HEADER_LINE_SEPARATOR_split :: "pystr \<Rightarrow> pystr list" where
  "RX_HEADER_LINE_SEPARATOR_split (c # d # cs) =
     (if (c = NL \<or> c = NUL) \<and> d = ch CHR '':'' then [] # RX_HEADER_LINE_SEPARATOR_split cs
      else cons_first c (RX_HEADER_LINE_SEPARATOR_split (d # cs)))"
| "RX_HEADER_LINE_SEPARATOR_split cs = [cs]"

text \<open>
  \<open>_parse_patch_header\<close> is a generator: nothing of its body runs before the consumer
  asks for the first item, and each header line is parsed only when the consumer asks for
  the next item. The model is the list of the attempts in the order the consumer would
  meet them, \<open>Inr\<close> an item and \<open>Inl\<close> an exception raised in place of an item; a
  consumer never looks past an \<open>Inl\<close>. Indexing \<open>header[0]\<close> raises \<open>IndexError\<close> on the
  empty string.
\<close>

definition parse_patch_header :: "pystr \<Rightarrow> (exn + (pystr \<times> Filemode)) list" where
  "parse_patch_header header =
     (case header of
        [] \<Rightarrow> [Inl (IndexError (ustr ''string index out of range''))]
      | c # _ \<Rightarrow>
          map (\<lambda>line. parse_patch_header_line (ch CHR '':'' # line))
            (tl (RX_HEADER_LINE_SEPARATOR_split
                   (if c = ch CHR '':'' then NL # header else header))))"

section \<open>Scannables\<close>

text \<open>
  The attribute \<open>_parsed_url\<close> is the result of \<open>urllib.parse.urlparse\<close>; the one place
  that reads it here, \<open>File.is_longer_than\<close> through \<open>path\<close>, takes the path extraction
  as a parameter. \<open>File._content\<close> is the field \<open>u_content\<close>, and
  \<open>StringScannable._content\<close> the field \<open>content\<close>, after the property that returns it.
  The patch parser builds a \<open>StringScannable\<close> from a \<open>str\<close>, which the constructor stores
  as it is.
\<close>

record Scannable =
  url :: pystr
  filemode :: Filemode

record StringScannable = Scannable +
  content :: pystr

record File = Scannable +
  u_content :: "pystr option"

text \<open>
  \<open>StringScannable.__init__\<close> for a content that is a \<open>str\<close>, with \<open>Scannable.__init__\<close>
  before it: the URL is parsed by \<open>urllib.parse.urlparse\<close>, which raises \<open>ValueError\<close> on
  some URLs (one that opens an IPv6 host with a bracket and does not close it, for one).
  The library function is a parameter: \<open>urlparse url\<close> is the path component of the
  result, or the exception.
\<close>

definition StringScannable_init ::
  "(pystr \<Rightarrow> exn + pystr) \<Rightarrow> pystr \<Rightarrow> pystr \<Rightarrow> Filemode \<Rightarrow> exn + StringScannable" where
  "StringScannable_init urlparse url_arg content_arg mode =
     (case urlparse url_arg of
        Inl e \<Rightarrow> Inl e
      | Inr _ \<Rightarrow> Inr \<lparr>url = url_arg, filemode = mode, content = content_arg\<rparr>)"

section \<open>Splitting a patch\<close>

text \<open>
  \<open>re.split(r"^diff ", rest, flags=re.MULTILINE)\<close>: the marker counts only at the start
  of the text or right after a newline. The flag says whether the position is one of
  those.
\<close>

fun diff_split :: "bool \<Rightarrow> pystr \<Rightarrow> pystr list" where
  "diff_split bol [] = [[]]"
| "diff_split bol (c # cs) =
     (if bol \<and> prefix (ustr ''diff '') (c # cs) then [] # diff_split False (drop 4 cs)
      else cons_first c (diff_split (c = NL) cs))"

text \<open>
  The body of the inner loop for one pair: \<open>Inr None\<close> is a \<open>continue\<close> (the path is
  excluded, or the diff has no hunk), \<open>Inr (Some s)\<close> the scannable that is yielded, and
  \<open>Inl\<close> the exception of the constructor. The content starts at the \<open>@@\<close> that follows
  the first newline-\<open>@@\<close>.
\<close>

definition scannable_of_diff ::
  "(pystr \<Rightarrow> exn + pystr) \<Rightarrow> (pystr \<Rightarrow> 'p set \<Rightarrow> bool) \<Rightarrow> 'p set \<Rightarrow> pystr \<times> Filemode \<Rightarrow> pystr
     \<Rightarrow> exn + StringScannable option" where
  "scannable_of_diff urlparse is_filepath_excluded exclusion_regexes nm diff =
     (if is_filepath_excluded (fst nm) exclusion_regexes then Inr None
      else (case str_index (NL # ustr ''@@'') diff of
              None \<Rightarrow> Inr None
            | Some end_of_headers \<Rightarrow>
                (case StringScannable_init urlparse (fst nm)
                        (drop (end_of_headers + 1) diff) (snd nm) of
                   Inl e \<Rightarrow> Inl e
                 | Inr s \<Rightarrow> Inr (Some s))))"

text \<open>What the body yields for a pair whose path the constructor accepts.\<close>

definition paired_scannable ::
  "(pystr \<Rightarrow> 'p set \<Rightarrow> bool) \<Rightarrow> 'p set \<Rightarrow> (pystr \<times> Filemode) \<times> pystr \<Rightarrow> StringScannable option" where
  "paired_scannable is_filepath_excluded exclusion_regexes pair =
     (if is_filepath_excluded (fst (fst pair)) exclusion_regexes then None
      else (case str_index (NL # ustr ''@@'') (snd pair) of
              None \<Rightarrow> None
            | Some end_of_headers \<Rightarrow>
                Some \<lparr>url = fst (fst pair), filemode = snd (fst pair),
                      content = drop (end_of_headers + 1) (snd pair)\<rparr>))"

text \<open>
  What a generator has done when its consumer has drained it: the items it yielded, and
  the exception that ended it, if one did.
\<close>

type_synonym 'a generated = "'a list \<times> exn option"

text \<open>
  The loop \<open>for (filename, filemode), diff in zip(names_and_modes, diffs)\<close>. \<open>zip\<close> asks
  its first argument for an item before its second: a header line is parsed (and may
  raise) before the diffs are known to be exhausted, and an item of the header whose
  diff is missing is dropped.
\<close>

fun zip_loop ::
  "(pystr \<Rightarrow> exn + pystr) \<Rightarrow> (pystr \<Rightarrow> 'p set \<Rightarrow> bool) \<Rightarrow> 'p set
     \<Rightarrow> (exn + (pystr \<times> Filemode)) list \<Rightarrow> pystr list \<Rightarrow> StringScannable generated" where
  "zip_loop up ex rs [] diffs = ([], None)"
| "zip_loop up ex rs (Inl e # names) diffs = ([], Some e)"
| "zip_loop up ex rs (Inr nm # names) [] = ([], None)"
| "zip_loop up ex rs (Inr nm # names) (d # diffs) =
     (case scannable_of_diff up ex rs nm d of
        Inl e \<Rightarrow> ([], Some e)
      | Inr None \<Rightarrow> zip_loop up ex rs names diffs
      | Inr (Some s) \<Rightarrow>
          (case zip_loop up ex rs names diffs of (ys, r) \<Rightarrow> (s # ys, r)))"

text \<open>The loop over the commit sections of \<open>_parse_patch\<close>.\<close>

fun parse_commits ::
  "(pystr \<Rightarrow> exn + pystr) \<Rightarrow> (pystr \<Rightarrow> 'p set \<Rightarrow> bool) \<Rightarrow> 'p set \<Rightarrow> pystr list
     \<Rightarrow> StringScannable generated" where
  "parse_commits up ex rs [] = ([], None)"
| "parse_commits up ex rs (commit # commits) =
     (case str_split1 (NUL # ustr ''diff '') commit of
        None \<Rightarrow> parse_commits up ex rs commits
      | Some (header, rest) \<Rightarrow>
          (case zip_loop up ex rs (parse_patch_header header) (diff_split True rest) of
             (ys, Some e) \<Rightarrow> (ys, Some e)
           | (ys, None) \<Rightarrow>
               (case parse_commits up ex rs commits of (zs, r) \<Rightarrow> (ys @ zs, r))))"

definition parse_patch ::
  "(pystr \<Rightarrow> exn + pystr) \<Rightarrow> (pystr \<Rightarrow> 'p set \<Rightarrow> bool) \<Rightarrow> pystr \<Rightarrow> 'p set
     \<Rightarrow> StringScannable generated" where
  "parse_patch urlparse is_filepath_excluded patch exclusion_regexes =
     parse_commits urlparse is_filepath_excluded exclusion_regexes
       (str_split (NUL # ustr ''commit '') patch)"

section \<open>Files\<close>



record Files =
  u_files :: nat


section \<open>Commit\<close>

text \<open>
  A \<open>Commit\<close> only ever assigns a whole list to \<open>_files\<close>, so it holds the list itself:
  \<open>_files\<close> and \<open>_patch\<close> are the fields \<open>c_files\<close> and \<open>c_patch\<close>. The attribute \<open>_info\<close>
  and the properties \<open>info\<close> and \<open>optional_header\<close> are left out: they reach the patch
  only through the property \<open>patch\<close> below, as one more access to it.
\<close>

record 'p Commit =
  c_files :: "StringScannable list"
  sha :: "pystr option"
  c_patch :: "pystr option"
  exclusion_regexes :: "'p set"

text \<open>\<open>Commit.__init__\<close>; \<open>exclusion_regexes or set()\<close> turns \<open>None\<close> into the empty set.\<close>

definition Commit_init :: "pystr option \<Rightarrow> 'p set option \<Rightarrow> 'p Commit" where
  "Commit_init sha_arg regexes =
     \<lparr>c_files = [], sha = sha_arg, c_patch = None,
      exclusion_regexes = (case regexes of None \<Rightarrow> {} | Some rs \<Rightarrow> rs)\<rparr>"

text \<open>
  The world outside the commit: the argument lists of the git invocations made so far,
  and a count of the runs of the patch parser (not in the source; it is what "parsed at
  most once" counts). The function \<open>git\<close> of \<open>ggshield.core.git_shell\<close> is a parameter:
  \<open>git n args\<close> is what the invocation with \<open>args\<close> answers when \<open>n\<close> invocations came
  before it, a text or an exception.
\<close>

record world =
  git_log :: "pystr list list"
  parser_runs :: nat

type_synonym git_fn = "nat \<Rightarrow> pystr list \<Rightarrow> exn + pystr"

definition call_git :: "git_fn \<Rightarrow> pystr list \<Rightarrow> world \<Rightarrow> (exn + pystr) \<times> world" where
  "call_git git args w = (git (length (git_log w)) args, w\<lparr>git_log := git_log w @ [args]\<rparr>)"

definition common_args :: "pystr list" where
  "common_args = [ustr ''--raw'', ustr ''-z'', ustr ''--patch'', ustr ''-m'']"

text \<open>\<open>if self.sha\<close> is false for \<open>None\<close> and for the empty string.\<close>

definition git_args :: "pystr option \<Rightarrow> pystr list" where
  "git_args s =
     (case s of
        Some (c # cs) \<Rightarrow> [ustr ''show'', c # cs] @ common_args
      | _ \<Rightarrow> [ustr ''diff'', ustr ''--cached''] @ common_args)"

text \<open>The property \<open>Commit.patch\<close>.\<close>

definition patch ::
  "git_fn \<Rightarrow> 'p Commit \<Rightarrow> world \<Rightarrow> (exn + pystr) \<times> 'p Commit \<times> world" where
  "patch git self w =
     (case c_patch self of
        Some p \<Rightarrow> (Inr p, self, w)
      | None \<Rightarrow>
          (case call_git git (git_args (sha self)) w of
             (Inl e, w') \<Rightarrow> (Inl e, self, w')
           | (Inr p, w') \<Rightarrow> (Inr p, self\<lparr>c_patch := Some p\<rparr>, w')))"

text \<open>\<open>f"Could not parse patch (sha: {self.sha}): {exc}"\<close>; \<open>None\<close> is formatted as
  \<open>None\<close>.\<close>

definition parse_error :: "pystr option \<Rightarrow> exn \<Rightarrow> exn" where
  "parse_error s exc =
     PatchParseError
       (ustr ''Could not parse patch (sha: ''
          @ (case s of None \<Rightarrow> ustr ''None'' | Some x \<Rightarrow> x)
          @ ustr ''): '' @ exn_str exc)"

text \<open>
  \<open>Commit.get_files\<close>, drained by its consumer. The property \<open>patch\<close> is read inside the
  \<open>try\<close>, so an exception of git is wrapped like one of the parser.
\<close>

definition get_files ::
  "git_fn \<Rightarrow> (pystr \<Rightarrow> exn + pystr) \<Rightarrow> (pystr \<Rightarrow> 'p set \<Rightarrow> bool) \<Rightarrow> 'p Commit \<Rightarrow> world
     \<Rightarrow> StringScannable generated \<times> 'p Commit \<times> world" where
  "get_files git urlparse is_filepath_excluded self w =
     (case patch git self w of
        (Inl exc, self', w') \<Rightarrow> (([], Some (parse_error (sha self') exc)), self', w')
      | (Inr p, self', w') \<Rightarrow>
          (case parse_patch urlparse is_filepath_excluded p (exclusion_regexes self') of
             (ys, r) \<Rightarrow>
               ((ys, map_option (parse_error (sha self')) r), self',
                w'\<lparr>parser_runs := parser_runs w' + 1\<rparr>)))"

text \<open>
  The property \<open>Commit.files\<close>: \<open>list(...)\<close> drains the generator, and an exception
  leaves the assignment undone. \<open>not self._files\<close> is true of the empty list.
\<close>

definition files ::
  "git_fn \<Rightarrow> (pystr \<Rightarrow> exn + pystr) \<Rightarrow> (pystr \<Rightarrow> 'p set \<Rightarrow> bool) \<Rightarrow> 'p Commit \<Rightarrow> world
     \<Rightarrow> (exn + StringScannable list) \<times> 'p Commit \<times> world" where
  "files git urlparse is_filepath_excluded self w =
     (if c_files self = [] then
        (case get_files git urlparse is_filepath_excluded self w of
           ((ys, Some e), self', w') \<Rightarrow> (Inl e, self', w')
         | ((ys, None), self', w') \<Rightarrow> (Inr ys, self'\<lparr>c_files := ys\<rparr>, w'))
      else (Inr (c_files self), self, w))"

text \<open>A run of accesses to the two properties, one after the other, with what each
  access answered.\<close>

datatype access = Patch | Files

datatype answer = PatchAnswer "exn + pystr" | FilesAnswer "exn + StringScannable list"

fun run ::
  "git_fn \<Rightarrow> (pystr \<Rightarrow> exn + pystr) \<Rightarrow> (pystr \<Rightarrow> 'p set \<Rightarrow> bool) \<Rightarrow> access list \<Rightarrow> 'p Commit
     \<Rightarrow> world \<Rightarrow> answer list \<times> 'p Commit \<times> world" where
  "run git up ex [] self w = ([], self, w)"
| "run git up ex (Patch # as) self w =
     (case patch git self w of
        (r, self', w') \<Rightarrow>
          (case run git up ex as self' w' of (rs, c, v) \<Rightarrow> (PatchAnswer r # rs, c, v)))"
| "run git up ex (Files # as) self w =
     (case files git up ex self w of
        (r, self', w') \<Rightarrow>
          (case run git up ex as self' w' of (rs, c, v) \<Rightarrow> (FilesAnswer r # rs, c, v)))"

section \<open>Filtering a file set\<close>




section \<open>Decoding bytes, and files on disk\<close>

definition BOM_UTF8 :: "byte list" where
  "BOM_UTF8 = [0xEF, 0xBB, 0xBF]"

definition utf_8 :: pystr where
  "utf_8 = ustr ''utf_8''"

text \<open>
  \<open>File._decode_bytes\<close>. Two library calls are parameters: \<open>best raw\<close> is the encoding
  of \<open>charset_normalizer.from_bytes(raw).best()\<close>, \<open>None\<close> when there is no best match,
  and \<open>decode encoding raw\<close> is \<open>raw.decode(encoding, errors="replace")\<close>. The logger is
  the list of the warnings issued so far.
\<close>

definition decode_bytes ::
  "(byte list \<Rightarrow> pystr option) \<Rightarrow> (pystr \<Rightarrow> byte list \<Rightarrow> exn + pystr) \<Rightarrow> byte list \<Rightarrow> pystr
     \<Rightarrow> pystr list \<Rightarrow> (exn + pystr) \<times> pystr list" where
  "decode_bytes best decode raw_document filename logger =
     (case best raw_document of
        None \<Rightarrow>
          (Inr [], logger @ [ustr ''Skipping '' @ filename @ ustr '', can't detect encoding''])
      | Some encoding \<Rightarrow>
          (decode encoding
             (if encoding = utf_8 \<and> prefix BOM_UTF8 raw_document
              then drop (length BOM_UTF8) raw_document else raw_document),
           logger))"

subsection \<open>The UTF-8 codec\<close>

text \<open>
  A model of \<open>bytes.decode("utf_8", errors="replace")\<close> of the Python library, which is
  not part of the source: well-formed sequences of one to four bytes give their code
  point (overlong forms, surrogates and values above U+10FFFF are not well-formed), and
  every maximal ill-formed run of bytes gives one U+FFFD. \<open>utf8_step b bs\<close> is the code
  point for the sequence that starts at \<open>b\<close> and the number of bytes of \<open>bs\<close> that belong
  to it.
\<close>

definition is_cont :: "byte \<Rightarrow> bool" where
  "is_cont c \<longleftrightarrow> 0x80 \<le> c \<and> c \<le> 0xBF"

definition second_ok :: "byte \<Rightarrow> byte \<Rightarrow> bool" where
  "second_ok b c \<longleftrightarrow>
     (if b = 0xE0 then 0xA0 \<le> c \<and> c \<le> 0xBF
      else if b = 0xED then 0x80 \<le> c \<and> c \<le> 0x9F
      else if b = 0xF0 then 0x90 \<le> c \<and> c \<le> 0xBF
      else if b = 0xF4 then 0x80 \<le> c \<and> c \<le> 0x8F
      else is_cont c)"

definition REPLACEMENT :: nat where
  "REPLACEMENT = 0xFFFD"

definition low6 :: "byte \<Rightarrow> nat" where
  "low6 c = unat c mod 64"

definition utf8_step :: "byte \<Rightarrow> byte list \<Rightarrow> nat \<times> nat" where
  "utf8_step b bs =
     (if b < 0x80 then (unat b, 0)
      else if 0xC2 \<le> b \<and> b \<le> 0xDF then
        (case bs of
           c # _ \<Rightarrow> if is_cont c then (unat b mod 32 * 64 + low6 c, 1) else (REPLACEMENT, 0)
         | [] \<Rightarrow> (REPLACEMENT, 0))
      else if 0xE0 \<le> b \<and> b \<le> 0xEF then
        (case bs of
           c # d # _ \<Rightarrow>
             if \<not> second_ok b c then (REPLACEMENT, 0)
             else if is_cont d then (unat b mod 16 * 4096 + low6 c * 64 + low6 d, 2)
             else (REPLACEMENT, 1)
         | [c] \<Rightarrow> if second_ok b c then (REPLACEMENT, 1) else (REPLACEMENT, 0)
         | [] \<Rightarrow> (REPLACEMENT, 0))
      else if 0xF0 \<le> b \<and> b \<le> 0xF4 then
        (case bs of
           c # d # e # _ \<Rightarrow>
             if \<not> second_ok b c then (REPLACEMENT, 0)
             else if \<not> is_cont d then (REPLACEMENT, 1)
             else if is_cont e
               then (unat b mod 8 * 262144 + low6 c * 4096 + low6 d * 64 + low6 e, 3)
             else (REPLACEMENT, 2)
         | [c, d] \<Rightarrow>
             if \<not> second_ok b c then (REPLACEMENT, 0)
             else if is_cont d then (REPLACEMENT, 2) else (REPLACEMENT, 1)
         | [c] \<Rightarrow> if second_ok b c then (REPLACEMENT, 1) else (REPLACEMENT, 0)
         | [] \<Rightarrow> (REPLACEMENT, 0))
      else (REPLACEMENT, 0))"

function utf8_decode :: "byte list \<Rightarrow> pystr" where
  "utf8_decode [] = []"
| "utf8_decode (b # bs) = fst (utf8_step b bs) # utf8_decode (drop (snd (utf8_step b bs)) bs)"
  by pat_completeness auto
termination
  by (relation "measure length") simp_all

text \<open>\<open>raw.decode(encoding, errors="replace")\<close>, with the codecs other than UTF-8 left as
  a parameter.\<close>

definition bytes_decode ::
  "(pystr \<Rightarrow> byte list \<Rightarrow> exn + pystr) \<Rightarrow> pystr \<Rightarrow> byte list \<Rightarrow> exn + pystr" where
  "bytes_decode other encoding raw =
     (if encoding = utf_8 then Inr (utf8_decode raw) else other encoding raw)"

text \<open>The disk: the bytes of the files that exist, by path.\<close>

type_synonym disk = "pystr \<rightharpoonup> byte list"

definition no_such_file :: "pystr \<Rightarrow> exn" where
  "no_such_file p = OSError (ustr ''[Errno 2] No such file or directory: '' @ p)"

definition getsize :: "disk \<Rightarrow> pystr \<Rightarrow> exn + nat" where
  "getsize fs p = (case fs p of None \<Rightarrow> Inl (no_such_file p) | Some raw \<Rightarrow> Inr (length raw))"

definition File_init :: "pystr \<Rightarrow> File" where
  "File_init filename = \<lparr>url = filename, filemode = FILE, u_content = None\<rparr>"

text \<open>The truth value of \<open>self._content\<close>: false for \<open>None\<close> and for the empty string.\<close>

fun truthy :: "pystr option \<Rightarrow> bool" where
  "truthy None = False"
| "truthy (Some s) = (s \<noteq> [])"

text \<open>\<open>File.is_longer_than\<close>; \<open>urlpath\<close> is \<open>urllib.parse.urlparse(url).path\<close>.\<close>

definition is_longer_than :: "(pystr \<Rightarrow> pystr) \<Rightarrow> disk \<Rightarrow> File \<Rightarrow> int \<Rightarrow> exn + bool" where
  "is_longer_than urlpath fs self sz =
     (case (if truthy (u_content self) then Inr (length (the (u_content self)))
            else getsize fs (urlpath (url self))) of
        Inl e \<Rightarrow> Inl e
      | Inr doc_size \<Rightarrow> Inr (int doc_size > sz))"

text \<open>\<open>File._prepare\<close> and the property \<open>File.content\<close>.\<close>

definition prepare ::
  "(byte list \<Rightarrow> pystr option) \<Rightarrow> (pystr \<Rightarrow> byte list \<Rightarrow> exn + pystr) \<Rightarrow> (pystr \<Rightarrow> pystr) \<Rightarrow> disk
     \<Rightarrow> File \<Rightarrow> pystr list \<Rightarrow> (exn + unit) \<times> File \<times> pystr list" where
  "prepare best decode urlpath fs self logger =
     (case u_content self of
        Some _ \<Rightarrow> (Inr (), self, logger)
      | None \<Rightarrow>
          (case fs (urlpath (url self)) of
             None \<Rightarrow> (Inl (no_such_file (urlpath (url self))), self, logger)
           | Some raw \<Rightarrow>
               (case decode_bytes best decode raw (url self) logger of
                  (Inl e, logger') \<Rightarrow> (Inl e, self, logger')
                | (Inr text, logger') \<Rightarrow> (Inr (), self\<lparr>u_content := Some text\<rparr>, logger'))))"

definition File_content ::
  "(byte list \<Rightarrow> pystr option) \<Rightarrow> (pystr \<Rightarrow> byte list \<Rightarrow> exn + pystr) \<Rightarrow> (pystr \<Rightarrow> pystr) \<Rightarrow> disk
     \<Rightarrow> File \<Rightarrow> pystr list \<Rightarrow> (exn + pystr) \<times> File \<times> pystr list" where
  "File_content best decode urlpath fs self logger =
     (case prepare best decode urlpath fs self logger of
        (Inl e, self', logger') \<Rightarrow> (Inl e, self', logger')
      | (Inr _, self', logger') \<Rightarrow>
          (case u_content self' of
             None \<Rightarrow> (Inl (AssertionError []), self', logger')
           | Some text \<Rightarrow> (Inr text, self', logger')))"


section \<open>Example inputs\<close>

text \<open>A line of a merge commit: deleted against one parent, modified against the other.\<close>

definition merge_line :: pystr where
  "merge_line = ustr ''::100644 100644 100644 a1 b2 c3 DM'' @ [NUL] @ ustr ''src/app.py'' @ [NUL]"

text \<open>A line of a rename, with its similarity score and the two names.\<close>

definition rename_line :: pystr where
  "rename_line =
     ustr '':100644 100644 a1 b2 R86'' @ [NUL] @ ustr ''old.py'' @ [NUL] @ ustr ''new.py'' @ [NUL]"

text \<open>A stand-in for \<open>urllib.parse.urlparse\<close> on URLs without scheme, query or fragment:
  the path is the URL, and an IPv6 host that is opened and not closed is refused.\<close>

definition simple_urlparse :: "pystr \<Rightarrow> exn + pystr" where
  "simple_urlparse u =
     (if prefix (ustr ''//['') u \<and> ch CHR '']'' \<notin> set u
      then Inl (ValueError (ustr ''Invalid IPv6 URL'')) else Inr u)"

text \<open>A stand-in for \<open>is_filepath_excluded\<close>: a path is excluded when it is one of the
  patterns.\<close>

definition member_excluded :: "pystr \<Rightarrow> pystr set \<Rightarrow> bool" where
  "member_excluded filename regexes \<longleftrightarrow> filename \<in> regexes"

text \<open>A header with two entries, the diff of one file, and the commit sections made of
  them: both, and the diff with nothing before its marker.\<close>

definition two_entries :: pystr where
  "two_entries =
     ustr '':100644 100644 a1 b2 M'' @ [NUL] @ ustr ''f1'' @ [NUL]
       @ ustr '':100644 000000 c3 d4 D'' @ [NUL] @ ustr ''f2'' @ [NUL]"

definition one_diff :: pystr where
  "one_diff =
     ustr ''--git a/f1 b/f1'' @ [NL] @ ustr ''--- a/f1'' @ [NL]
       @ ustr ''@@ -1 +1 @@'' @ [NL] @ ustr ''+x''"

definition two_entries_one_diff :: pystr where
  "two_entries_one_diff = two_entries @ NUL # ustr ''diff '' @ one_diff"

definition bare_diff :: pystr where
  "bare_diff = NUL # ustr ''diff '' @ one_diff"

text \<open>A world in which git has not been invoked, and three behaviours of git: the same
  text every time, and one text for the first invocation and another afterwards. The
  patches are one of a commit without a diff, and one whose second header line has the
  unknown status \<open>X\<close>.\<close>

definition world0 :: world where
  "world0 = \<lparr>git_log = [], parser_runs = 0\<rparr>"

definition git_constant :: "pystr \<Rightarrow> git_fn" where
  "git_constant text n args = Inr text"

definition no_diff_patch :: pystr where
  "no_diff_patch = ustr ''commit abc123'' @ [NL] @ ustr ''Author: A <a@b.c>'' @ [NL]"

definition bad_status_patch :: pystr where
  "bad_status_patch =
     ustr '':100644 100644 a1 b2 M'' @ [NUL] @ ustr ''f1'' @ [NUL]
       @ ustr '':100644 100644 c3 d4 X'' @ [NUL] @ ustr ''f2'' @ [NUL]
       @ [NUL] @ ustr ''diff --git a/f1 b/f1'' @ [NL] @ ustr ''@@ -1 +1 @@'' @ [NL] @ ustr ''+x'' @ [NL]
       @ ustr ''diff --git a/f2 b/f2'' @ [NL] @ ustr ''@@ -1 +1 @@'' @ [NL] @ ustr ''+y''"

definition git_numbered :: git_fn where
  "git_numbered n args = Inr (if n = 0 then no_diff_patch else bad_status_patch)"

text \<open>A detector that finds no encoding, one that knows the UTF-8 signature only, a
  library without codecs other than UTF-8, a path extraction for plain file names, and a
  disk with one file of eight bytes that are no text.\<close>

definition no_best :: "byte list \<Rightarrow> pystr option" where
  "no_best raw = None"

definition bom_best :: "byte list \<Rightarrow> pystr option" where
  "bom_best raw = (if prefix BOM_UTF8 raw then Some utf_8 else None)"

definition no_other_codec :: "pystr \<Rightarrow> byte list \<Rightarrow> exn + pystr" where
  "no_other_codec encoding raw = Inl (ExternalError (ustr ''unknown encoding: '' @ encoding))"

definition same_path :: "pystr \<Rightarrow> pystr" where
  "same_path u = u"

definition binary_disk :: disk where
  "binary_disk = [ustr ''logo.png'' \<mapsto> [0x89, 0x50, 0x4E, 0x47, 0x0D, 0x0A, 0x1A, 0x0A]]"

text \<open>The letter \<open>a\<close> after one byte-order mark, and after two.\<close>

definition single_bom :: "byte list" where
  "single_bom = BOM_UTF8 @ [0x61]"

definition double_bom :: "byte list" where
  "double_bom = BOM_UTF8 @ BOM_UTF8 @ [0x61]"






section \<open>Header lines: the status and its precedence\<close>

text \<open>
  Every prefix splits in one way into a front that is empty or ends in a space, letters
  free of spaces that do not end in a digit, and a score of digits.
\<close>

lemma prefix_decomposition:
  "\<exists>front letters score.
     pfx = front @ letters @ score
     \<and> (front = [] \<or> last front = ch CHR '' '')
     \<and> ch CHR '' '' \<notin> set letters
     \<and> set score \<subseteq> set (ustr ''0123456789'')
     \<and> (letters = [] \<or> last letters \<notin> set (ustr ''0123456789''))"
proof -
  let ?sp = "\<lambda>x. x \<noteq> ch CHR '' ''"
  let ?dg = "\<lambda>x. x \<in> set (ustr ''0123456789'')"
  define tok where "tok = rev (takeWhile ?sp (rev pfx))"
  define front where "front = rev (dropWhile ?sp (rev pfx))"
  define score where "score = rev (takeWhile ?dg (rev tok))"
  define letters where "letters = rev (dropWhile ?dg (rev tok))"
  have "front @ tok = rev (takeWhile ?sp (rev pfx) @ dropWhile ?sp (rev pfx))"
    by (simp only: front_def tok_def rev_append)
  then have a: "pfx = front @ tok"
    by (simp only: takeWhile_dropWhile_id rev_rev_ident)
  have "letters @ score = rev (takeWhile ?dg (rev tok) @ dropWhile ?dg (rev tok))"
    by (simp only: letters_def score_def rev_append)
  then have b: "tok = letters @ score"
    by (simp only: takeWhile_dropWhile_id rev_rev_ident)
  have c: "front = [] \<or> last front = ch CHR '' ''"
  proof (cases "dropWhile ?sp (rev pfx) = []")
    case True
    then show ?thesis by (simp add: front_def)
  next
    case False
    then have "\<not> ?sp (hd (dropWhile ?sp (rev pfx)))" by (rule hd_dropWhile)
    with False show ?thesis by (simp add: front_def last_rev)
  qed
  have "ch CHR '' '' \<notin> set tok"
    using set_takeWhileD [of "ch CHR '' ''" ?sp "rev pfx"] by (auto simp: tok_def)
  with b have d: "ch CHR '' '' \<notin> set letters" by simp
  have e: "set score \<subseteq> set (ustr ''0123456789'')"
    using set_takeWhileD [of _ ?dg "rev tok"] by (auto simp: score_def)
  have f: "letters = [] \<or> last letters \<notin> set (ustr ''0123456789'')"
  proof (cases "dropWhile ?dg (rev tok) = []")
    case True
    then show ?thesis by (simp add: letters_def)
  next
    case False
    then have "\<not> ?dg (hd (dropWhile ?dg (rev tok)))" by (rule hd_dropWhile)
    with False show ?thesis by (simp add: letters_def last_rev)
  qed
  from a b c d e f show ?thesis by blast
qed

text \<open>On such a prefix \<open>status_of\<close> is the letters: what follows the last space, without
  the score.\<close>

lemma status_of_shape:
  assumes "front = [] \<or> last front = ch CHR '' ''"
    and "ch CHR '' '' \<notin> set letters"
    and "set score \<subseteq> set (ustr ''0123456789'')"
    and "letters = [] \<or> last letters \<notin> set (ustr ''0123456789'')"
  shows "status_of (front @ letters @ score) = letters"
proof -
  let ?sp = "\<lambda>x. x \<noteq> ch CHR '' ''"
  let ?dg = "\<lambda>c. c \<in> set digits"
  have dg: "set digits = set (ustr ''0123456789'')" by (simp add: digits_def)
  have "ch CHR '' '' \<notin> set (ustr ''0123456789'')" by (simp add: ustr_def)
  with assms(3) have "ch CHR '' '' \<notin> set score" by blast
  with assms(2) have nosp: "\<And>x. x \<in> set (rev score @ rev letters) \<Longrightarrow> ?sp x" by auto
  have tw: "takeWhile ?sp (rev (front @ letters @ score)) = rev score @ rev letters"
  proof (cases "front = []")
    case True
    have "takeWhile ?sp (rev score @ rev letters) = rev score @ rev letters"
      using nosp by (simp add: takeWhile_eq_all_conv)
    with True show ?thesis by simp
  next
    case False
    with assms(1) have "front = butlast front @ [ch CHR '' '']"
      by (metis append_butlast_last_id)
    then obtain f where f: "front = f @ [ch CHR '' '']" ..
    have "takeWhile ?sp ((rev score @ rev letters) @ ch CHR '' '' # rev f)
            = (rev score @ rev letters) @ takeWhile ?sp (ch CHR '' '' # rev f)"
      by (intro takeWhile_append2) (use nosp in blast)
    with f show ?thesis by simp
  qed
  then have a: "str_rsplit1_last (ch CHR '' '') (front @ letters @ score) = letters @ score"
    by (simp add: str_rsplit1_last_def)
  have strip: "dropWhile ?dg (rev score @ rev letters) = dropWhile ?dg (rev letters)"
    by (intro dropWhile_append2) (use assms(3) dg in auto)
  have "dropWhile ?dg (rev letters) = rev letters"
  proof (cases "letters = []")
    case True
    then show ?thesis by simp
  next
    case False
    with assms(4) dg have "hd (rev letters) \<notin> set digits" by (simp add: hd_rev)
    with False show ?thesis by (cases "rev letters") auto
  qed
  with strip a show ?thesis by (simp add: status_of_def str_rstrip_def)
qed

text \<open>
  Claim C1. For every raw header line that has a prefix and a path: the status letters
  are the last token of the prefix (what follows its last space, the whole prefix when
  it has no space) with the trailing decimal digits stripped, and they are resolved by
  first match: \<open>M\<close> gives Modified (\<open>MODIFY\<close>), else \<open>C\<close>, \<open>A\<close> or \<open>T\<close> gives Added
  (\<open>NEW\<close>), else \<open>R\<close> gives Renamed, else \<open>D\<close> gives Deleted. So a status with \<open>M\<close> among
  any other letters is Modified. A status with none of the six letters raises a
  \<open>ValueError\<close> whose message quotes the line and the letters. The path is the new name
  when the line has one. By \<open>prefix_decomposition\<close> every prefix has the shape of the
  hypotheses.
\<close>

theorem C1_status_precedence:
  assumes "str_split [NUL] (str_rstrip [NUL] line) = pfx # name # rest"
    and "pfx = front @ letters @ score"
    and "front = [] \<or> last front = ch CHR '' ''"
    and "ch CHR '' '' \<notin> set letters"
    and "set score \<subseteq> set (ustr ''0123456789'')"
    and "letters = [] \<or> last letters \<notin> set (ustr ''0123456789'')"
  shows "parse_patch_header_line line =
     (let path = (case rest of [] \<Rightarrow> name | new_name # _ \<Rightarrow> new_name)
      in if ch CHR ''M'' \<in> set letters then Inr (path, MODIFY)
         else if ch CHR ''C'' \<in> set letters then Inr (path, NEW)
         else if ch CHR ''A'' \<in> set letters then Inr (path, NEW)
         else if ch CHR ''T'' \<in> set letters then Inr (path, NEW)
         else if ch CHR ''R'' \<in> set letters then Inr (path, RENAME)
         else if ch CHR ''D'' \<in> set letters then Inr (path, DELETE)
         else Inl (ValueError (ustr ''Can't parse header line '' @ line
                                 @ ustr '': unknown status '' @ letters)))"
proof -
  have "status_of pfx = letters"
    using status_of_shape [OF assms(3-6)] assms(2) by simp
  with assms(1) show ?thesis
    by (simp add: parse_patch_header_line_def resolve_status_def unknown_status_def Let_def)
qed

lemma merge_line_tokens:
  "str_split [NUL] (str_rstrip [NUL] merge_line)
     = [ustr ''::100644 100644 100644 a1 b2 c3 '' @ ustr ''DM'' @ [], ustr ''src/app.py'']"
  by (simp add: merge_line_def ustr_def str_rstrip_def)

lemma rename_line_tokens:
  "str_split [NUL] (str_rstrip [NUL] rename_line)
     = [ustr '':100644 100644 a1 b2 '' @ ustr ''R'' @ ustr ''86'', ustr ''old.py'', ustr ''new.py'']"
  by (simp add: rename_line_def ustr_def str_rstrip_def)

text \<open>The theorem at a merge line whose status is \<open>DM\<close>, deleted against one parent and
  modified against the other, and at a rename line with the score 86.\<close>

theorem C1_status_precedence_witness:
  "parse_patch_header_line merge_line = Inr (ustr ''src/app.py'', MODIFY)
   \<and> parse_patch_header_line rename_line = Inr (ustr ''new.py'', RENAME)"
proof -
  have m: "parse_patch_header_line merge_line = Inr (ustr ''src/app.py'', MODIFY)"
    using C1_status_precedence [where line = merge_line
        and pfx = "ustr ''::100644 100644 100644 a1 b2 c3 '' @ ustr ''DM'' @ []"
        and name = "ustr ''src/app.py''" and rest = "[]"
        and front = "ustr ''::100644 100644 100644 a1 b2 c3 ''" and letters = "ustr ''DM''"
        and score = "[]", OF merge_line_tokens]
    by (simp add: ustr_def)
  have r: "parse_patch_header_line rename_line = Inr (ustr ''new.py'', RENAME)"
    using C1_status_precedence [where line = rename_line
        and pfx = "ustr '':100644 100644 a1 b2 '' @ ustr ''R'' @ ustr ''86''"
        and name = "ustr ''old.py''" and rest = "[ustr ''new.py'']"
        and front = "ustr '':100644 100644 a1 b2 ''" and letters = "ustr ''R''"
        and score = "ustr ''86''", OF rename_line_tokens]
    by (simp add: ustr_def)
  from m r show ?thesis by simp
qed

section \<open>Pairing header entries with diffs\<close>

text \<open>An exception of the constructor ends the loop; without one the body yields what
  \<open>paired_scannable\<close> says.\<close>

lemma scannable_of_diff_raises:
  assumes "up (fst nm) = Inl e" and "\<not> ex (fst nm) rs"
    and "str_index (NL # ustr ''@@'') d = Some i"
  shows "zip_loop up ex rs (Inr nm # names) (d # diffs) = ([], Some e)"
  using assms by (simp add: scannable_of_diff_def StringScannable_init_def)

lemma scannable_of_diff_accepted:
  assumes "\<not> isl (up (fst nm))"
  shows "scannable_of_diff up ex rs nm d = Inr (paired_scannable ex rs (nm, d))"
  using assms
  by (cases "up (fst nm)")
     (simp_all add: scannable_of_diff_def paired_scannable_def StringScannable_init_def
        split: option.splits)

text \<open>When every header line parses and every path is accepted, the lazy loop is the
  positional pairing of \<open>zip\<close>, which stops at the end of the shorter list.\<close>

lemma zip_loop_all_parsed:
  assumes "\<forall>nm \<in> set entries. \<not> isl (up (fst nm))"
  shows "zip_loop up ex rs (map Inr entries) diffs =
     (List.map_filter (paired_scannable ex rs) (zip entries diffs), None)"
  using assms
proof (induction entries arbitrary: diffs)
  case Nil
  then show ?case by simp
next
  case (Cons nm entries)
  show ?case
  proof (cases diffs)
    case Nil
    then show ?thesis by simp
  next
    case (Cons d ds)
    from Cons.prems have acc: "\<not> isl (up (fst nm))"
      and rest: "\<forall>nm \<in> set entries. \<not> isl (up (fst nm))" by simp_all
    from Cons.IH [OF rest, of ds] scannable_of_diff_accepted [of up nm ex rs d, OF acc] Cons
    show ?thesis by (simp split: option.splits)
  qed
qed

lemma length_map_filter_le: "length (List.map_filter f xs) \<le> length xs"
  by (induction xs) (simp_all split: option.splits)

text \<open>
  Claim C6, as stated, fails: a commit section that is empty before its diff marker has
  no header entry and one diff segment, and the pipeline raises \<open>IndexError\<close> on it.
\<close>

theorem C6_empty_header_mismatch_raises:
  "str_split1 (NUL # ustr ''diff '') bare_diff = Some ([], one_diff)
   \<and> parse_patch_header [] = [Inl (IndexError (ustr ''string index out of range''))]
   \<and> length (diff_split True one_diff) = 1
   \<and> parse_commits simple_urlparse member_excluded {} [bare_diff]
       = ([], Some (IndexError (ustr ''string index out of range'')))"
proof -
  have a: "str_split1 (NUL # ustr ''diff '') bare_diff = Some ([], one_diff)"
    by (simp add: bare_diff_def ustr_def)
  have b: "parse_patch_header [] = [Inl (IndexError (ustr ''string index out of range''))]"
    by (simp add: parse_patch_header_def)
  have c: "length (diff_split True one_diff) = 1"
    by (simp add: one_diff_def ustr_def)
  from a b have "parse_commits simple_urlparse member_excluded {} [bare_diff]
       = ([], Some (IndexError (ustr ''string index out of range'')))"
    by simp
  with a b c show ?thesis by simp
qed

text \<open>
  Claim C6, amended. For every commit section whose header is not empty, whose header
  lines all parse and whose paths the constructor of the scannable accepts, whatever the
  number of header entries and the number of diff segments are, the section raises
  nothing: the entries and the segments are paired by position, the excess on either
  side is dropped, and the section yields at most as many scannables as the shorter of
  the two.
\<close>

theorem C6_pairing_lenient:
  assumes "str_split1 (NUL # ustr ''diff '') commit = Some (header, rest)"
    and "header \<noteq> []"
    and "parse_patch_header header = map Inr entries"
    and "\<forall>nm \<in> set entries. \<not> isl (urlparse (fst nm))"
  shows "parse_commits urlparse ex rs [commit] =
           (List.map_filter (paired_scannable ex rs) (zip entries (diff_split True rest)), None)
         \<and> length (fst (parse_commits urlparse ex rs [commit]))
             \<le> min (length entries) (length (diff_split True rest))"
proof -
  have a: "parse_commits urlparse ex rs [commit] =
           (List.map_filter (paired_scannable ex rs) (zip entries (diff_split True rest)), None)"
    using assms(1,3) by (simp add: zip_loop_all_parsed [OF assms(4)])
  have "length (List.map_filter (paired_scannable ex rs) (zip entries (diff_split True rest)))
         \<le> length (zip entries (diff_split True rest))"
    by (rule length_map_filter_le)
  with a show ?thesis by simp
qed

lemma two_split:
  "str_split1 (NUL # ustr ''diff '') two_entries_one_diff = Some (two_entries, one_diff)"
  by (simp add: two_entries_one_diff_def two_entries_def ustr_def)

lemma two_header:
  "parse_patch_header two_entries = map Inr [(ustr ''f1'', MODIFY), (ustr ''f2'', DELETE)]"
  by (simp add: two_entries_def parse_patch_header_def parse_patch_header_line_def ustr_def
      str_rstrip_def status_of_def str_rsplit1_last_def digits_def resolve_status_def)

lemma two_diffs: "diff_split True one_diff = [one_diff]"
  by (simp add: one_diff_def ustr_def)

lemma two_accepted:
  "\<forall>nm \<in> set [(ustr ''f1'', MODIFY), (ustr ''f2'', DELETE)]. \<not> isl (simple_urlparse (fst nm))"
  by (simp add: simple_urlparse_def ustr_def)

lemma one_diff_scannable:
  "paired_scannable member_excluded {} ((ustr ''f1'', MODIFY), one_diff) =
     Some \<lparr>url = ustr ''f1'', filemode = MODIFY,
           content = ustr ''@@ -1 +1 @@'' @ [NL] @ ustr ''+x''\<rparr>"
  by (simp add: paired_scannable_def member_excluded_def one_diff_def ustr_def)

text \<open>The theorem at a section with two header entries and one diff segment: one
  scannable comes out and the second entry is dropped.\<close>

theorem C6_pairing_lenient_witness:
  "str_split1 (NUL # ustr ''diff '') two_entries_one_diff = Some (two_entries, one_diff)
   \<and> two_entries \<noteq> []
   \<and> parse_patch_header two_entries = map Inr [(ustr ''f1'', MODIFY), (ustr ''f2'', DELETE)]
   \<and> simple_urlparse (ustr ''f1'') = Inr (ustr ''f1'')
   \<and> simple_urlparse (ustr ''f2'') = Inr (ustr ''f2'')
   \<and> length (diff_split True one_diff) = 1
   \<and> parse_commits simple_urlparse member_excluded {} [two_entries_one_diff] =
       ([\<lparr>url = ustr ''f1'', filemode = MODIFY,
          content = ustr ''@@ -1 +1 @@'' @ [NL] @ ustr ''+x''\<rparr>], None)"
proof -
  have ne: "two_entries \<noteq> []" by (simp add: two_entries_def ustr_def)
  have u: "simple_urlparse (ustr ''f1'') = Inr (ustr ''f1'')"
    "simple_urlparse (ustr ''f2'') = Inr (ustr ''f2'')"
    by (simp_all add: simple_urlparse_def ustr_def)
  from C6_pairing_lenient [OF two_split ne two_header two_accepted, of member_excluded "{}"]
  have "parse_commits simple_urlparse member_excluded {} [two_entries_one_diff] =
       ([\<lparr>url = ustr ''f1'', filemode = MODIFY,
          content = ustr ''@@ -1 +1 @@'' @ [NL] @ ustr ''+x''\<rparr>], None)"
    by (simp add: two_diffs one_diff_scannable del: parse_commits.simps)
  with two_split ne two_header u two_diffs show ?thesis by simp
qed

section \<open>The empty header\<close>

lemma parse_commits_empty_header:
  assumes "str_split1 (NUL # ustr ''diff '') commit = Some ([], rest)"
  shows "parse_commits up ex rs (commit # commits)
           = ([], Some (IndexError (ustr ''string index out of range'')))"
  using assms by (simp add: parse_patch_header_def)

lemma parse_commits_fails_at:
  assumes "commit \<in> set commits"
    and "str_split1 (NUL # ustr ''diff '') commit = Some ([], rest)"
  shows "snd (parse_commits up ex rs commits) \<noteq> None"
  using assms
proof (induction commits)
  case Nil
  then show ?case by simp
next
  case (Cons c cs)
  show ?case
  proof (cases "c = commit")
    case True
    from Cons.prems(2)
    have "parse_commits up ex rs (commit # cs)
            = ([], Some (IndexError (ustr ''string index out of range'')))"
      by (rule parse_commits_empty_header)
    with True show ?thesis by (simp del: parse_commits.simps)
  next
    case False
    with Cons have "snd (parse_commits up ex rs cs) \<noteq> None" by simp
    then show ?thesis
      by (auto split: option.splits prod.splits)
  qed
qed

text \<open>
  Claim C10. On the empty string the header parser raises \<open>IndexError\<close> when it is asked
  for its first item, instead of yielding nothing; so a patch with a commit section that
  is empty before its first diff marker ends in an exception.
\<close>

theorem C10_empty_header_raises:
  assumes "commit \<in> set (str_split (NUL # ustr ''commit '') p)"
    and "str_split1 (NUL # ustr ''diff '') commit = Some ([], rest)"
  shows "parse_patch_header [] = [Inl (IndexError (ustr ''string index out of range''))]
         \<and> snd (parse_patch up ex p rs) \<noteq> None"
  using parse_commits_fails_at [OF assms]
  by (simp add: parse_patch_header_def parse_patch_def)

lemma bare_diff_sections: "str_split (NUL # ustr ''commit '') bare_diff = [bare_diff]"
  by (simp add: bare_diff_def one_diff_def ustr_def)

lemma bare_diff_split: "str_split1 (NUL # ustr ''diff '') bare_diff = Some ([], one_diff)"
  by (simp add: bare_diff_def ustr_def)

text \<open>The theorem at a patch that starts with the diff marker.\<close>

theorem C10_empty_header_raises_witness:
  "bare_diff \<in> set (str_split (NUL # ustr ''commit '') bare_diff)
   \<and> str_split1 (NUL # ustr ''diff '') bare_diff = Some ([], one_diff)
   \<and> parse_patch_header [] = [Inl (IndexError (ustr ''string index out of range''))]
   \<and> snd (parse_patch simple_urlparse member_excluded bare_diff {}) \<noteq> None"
  using C10_empty_header_raises [of bare_diff bare_diff one_diff simple_urlparse member_excluded "{}"]
  by (simp add: bare_diff_sections bare_diff_split)

section \<open>Failure of the parse\<close>

lemma patch_frame:
  assumes "patch git self w = (r, self', w')"
  shows "sha self' = sha self \<and> exclusion_regexes self' = exclusion_regexes self
         \<and> c_files self' = c_files self"
  using assms by (auto simp: patch_def split: option.splits prod.splits sum.splits)

text \<open>
  Claim C2. For every commit whose file list is not populated and every patch text on
  which the parser raises an exception, \<open>get_files\<close> ends in one \<open>PatchParseError\<close> whose
  message carries the revision identifier and the message of the cause, the property
  \<open>files\<close> raises that error, and the file list of the commit is still empty afterwards,
  whatever the generator had yielded before the exception.
\<close>

theorem C2_parse_failure_wrapped:
  assumes "c_files self = []"
    and "fst (patch git self w) = Inr p"
    and "snd (parse_patch up ex p (exclusion_regexes self)) = Some exc"
  shows "snd (fst (get_files git up ex self w)) =
           Some (PatchParseError
                   (ustr ''Could not parse patch (sha: ''
                      @ (case sha self of None \<Rightarrow> ustr ''None'' | Some x \<Rightarrow> x)
                      @ ustr ''): '' @ exn_str exc))
         \<and> fst (files git up ex self w) =
             Inl (PatchParseError
                   (ustr ''Could not parse patch (sha: ''
                      @ (case sha self of None \<Rightarrow> ustr ''None'' | Some x \<Rightarrow> x)
                      @ ustr ''): '' @ exn_str exc))
         \<and> c_files (fst (snd (files git up ex self w))) = []"
proof -
  obtain r self' w' where pw: "patch git self w = (r, self', w')"
    by (cases "patch git self w") auto
  with assms(2) have r: "r = Inr p" by simp
  note fr = patch_frame [OF pw]
  obtain ys where pp: "parse_patch up ex p (exclusion_regexes self) = (ys, Some exc)"
    using assms(3) by (cases "parse_patch up ex p (exclusion_regexes self)") auto
  have g: "get_files git up ex self w =
        ((ys, Some (parse_error (sha self) exc)), self', w'\<lparr>parser_runs := parser_runs w' + 1\<rparr>)"
    using pw r fr pp by (simp add: get_files_def)
  then have f: "files git up ex self w =
        (Inl (parse_error (sha self) exc), self', w'\<lparr>parser_runs := parser_runs w' + 1\<rparr>)"
    using assms(1) by (simp add: files_def)
  from g f fr assms(1) show ?thesis
    by (simp add: parse_error_def)
qed

lemma bad_status_parse:
  "parse_patch simple_urlparse member_excluded bad_status_patch {} =
     ([\<lparr>url = ustr ''f1'', filemode = MODIFY,
        content = ustr ''@@ -1 +1 @@'' @ [NL] @ ustr ''+x'' @ [NL]\<rparr>],
      Some (ValueError (ustr ''Can't parse header line :100644 100644 c3 d4 X'' @ [NUL]
              @ ustr ''f2'' @ [NUL] @ ustr '': unknown status X'')))"
  by (simp add: parse_patch_def bad_status_patch_def ustr_def parse_patch_header_def
      parse_patch_header_line_def str_rstrip_def status_of_def str_rsplit1_last_def digits_def
      resolve_status_def unknown_status_def scannable_of_diff_def StringScannable_init_def simple_urlparse_def member_excluded_def)

lemma bad_status_fetch:
  "patch (git_constant bad_status_patch) (Commit_init (Some (ustr ''abc123'')) None) world0
     = (Inr bad_status_patch,
        (Commit_init (Some (ustr ''abc123'')) None)\<lparr>c_patch := Some bad_status_patch\<rparr>,
        world0\<lparr>git_log := [git_args (Some (ustr ''abc123''))]\<rparr>)"
  by (simp add: patch_def call_git_def git_constant_def Commit_init_def world0_def)

text \<open>The theorem at a patch whose second header line has the unknown status \<open>X\<close>: the
  generator yields the first file and then raises; nothing of it reaches the commit.\<close>

theorem C2_parse_failure_wrapped_witness:
  "c_files (Commit_init (Some (ustr ''abc123'')) (None :: pystr set option)) = []
   \<and> fst (patch (git_constant bad_status_patch) (Commit_init (Some (ustr ''abc123'')) (None :: pystr set option)) world0)
       = Inr bad_status_patch
   \<and> length (fst (fst (get_files (git_constant bad_status_patch) simple_urlparse member_excluded
                         (Commit_init (Some (ustr ''abc123'')) None) world0))) = 1
   \<and> fst (files (git_constant bad_status_patch) simple_urlparse member_excluded
             (Commit_init (Some (ustr ''abc123'')) None) world0)
       = Inl (PatchParseError
                (ustr ''Could not parse patch (sha: abc123): Can't parse header line :100644 100644 c3 d4 X''
                   @ [NUL] @ ustr ''f2'' @ [NUL] @ ustr '': unknown status X''))
   \<and> c_files (fst (snd (files (git_constant bad_status_patch) simple_urlparse member_excluded
                          (Commit_init (Some (ustr ''abc123'')) None) world0))) = []"
proof -
  have a: "c_files (Commit_init (Some (ustr ''abc123'')) (None :: pystr set option)) = []"
    by (simp add: Commit_init_def)
  have b: "fst (patch (git_constant bad_status_patch)
                 (Commit_init (Some (ustr ''abc123'')) (None :: pystr set option)) world0)
             = Inr bad_status_patch"
    by (simp add: bad_status_fetch)
  have c: "snd (parse_patch simple_urlparse member_excluded bad_status_patch
                  (exclusion_regexes (Commit_init (Some (ustr ''abc123'')) (None :: pystr set option))))
             = Some (ValueError (ustr ''Can't parse header line :100644 100644 c3 d4 X'' @ [NUL]
              @ ustr ''f2'' @ [NUL] @ ustr '': unknown status X''))"
    by (simp add: Commit_init_def bad_status_parse)
  have d: "length (fst (fst (get_files (git_constant bad_status_patch) simple_urlparse member_excluded
                         (Commit_init (Some (ustr ''abc123'')) None) world0))) = 1"
    by (simp add: get_files_def bad_status_fetch bad_status_parse)
       (simp add: Commit_init_def bad_status_parse)
  from C2_parse_failure_wrapped [OF a b c] a b d show ?thesis
    by (simp add: Commit_init_def ustr_def)
qed

section \<open>Memoization of the patch and of the files\<close>

lemma patch_memo: "c_patch self = Some t \<Longrightarrow> patch git self w = (Inr t, self, w)"
  by (simp add: patch_def)

lemma patch_fresh:
  assumes "c_patch self = None" and "git (length (git_log w)) (git_args (sha self)) = Inr t"
  shows "patch git self w =
           (Inr t, self\<lparr>c_patch := Some t\<rparr>, w\<lparr>git_log := git_log w @ [git_args (sha self)]\<rparr>)"
  using assms by (simp add: patch_def call_git_def)

lemma files_keeps_patch:
  assumes "c_patch self = Some t" and "files git up ex self w = (r, self', w')"
  shows "c_patch self' = Some t \<and> git_log w' = git_log w"
  using assms
  by (auto simp: files_def get_files_def patch_def split: if_splits prod.splits option.splits)

lemma files_fresh:
  assumes "c_patch self = None" and "c_files self = []"
    and "git (length (git_log w)) (git_args (sha self)) = Inr t"
    and "files git up ex self w = (r, self', w')"
  shows "c_patch self' = Some t \<and> git_log w' = git_log w @ [git_args (sha self)]"
  using assms
  by (auto simp: files_def get_files_def patch_fresh split: prod.splits option.splits)

lemma run_memo:
  assumes "c_patch self = Some t"
  shows "git_log (snd (snd (run git up ex as self w))) = git_log w
         \<and> (\<forall>a \<in> set (fst (run git up ex as self w)). \<forall>x. a = PatchAnswer x \<longrightarrow> x = Inr t)"
  using assms
proof (induction as arbitrary: self w)
  case Nil
  then show ?case by simp
next
  case (Cons a as)
  show ?case
  proof (cases a)
    case Patch
    with Cons.IH [OF Cons.prems, of w] Cons.prems show ?thesis
      by (auto simp: patch_memo split: prod.splits)
  next
    case Files
    obtain r self' w' where f: "files git up ex self w = (r, self', w')"
      by (cases "files git up ex self w") auto
    from files_keeps_patch [OF Cons.prems f]
    have k: "c_patch self' = Some t" "git_log w' = git_log w" by simp_all
    from Cons.IH [OF k(1), of w'] k(2) f Files show ?thesis
      by (auto split: prod.splits)
  qed
qed

text \<open>
  Claim C5. For every freshly built commit on which git answers with a text, any
  non-empty run of accesses to the properties \<open>patch\<close> and \<open>files\<close>, in any order, invokes
  git exactly once, with the arguments of the revision, and every access to \<open>patch\<close>
  answers that same text.
\<close>

theorem C5_git_invoked_once:
  assumes "git (length (git_log w)) (git_args s) = Inr t" and "accesses \<noteq> []"
  shows "git_log (snd (snd (run git up ex accesses (Commit_init s r) w))) = git_log w @ [git_args s]
         \<and> (\<forall>a \<in> set (fst (run git up ex accesses (Commit_init s r) w)).
               \<forall>x. a = PatchAnswer x \<longrightarrow> x = Inr t)"
proof -
  obtain a as' where as: "accesses = a # as'"
    using assms(2) by (cases accesses) auto
  have fresh: "c_patch (Commit_init s r) = None" "c_files (Commit_init s r) = []"
    "sha (Commit_init s r) = s"
    by (simp_all add: Commit_init_def)
  show ?thesis
  proof (cases a)
    case Patch
    have p: "patch git (Commit_init s r) w =
        (Inr t, (Commit_init s r)\<lparr>c_patch := Some t\<rparr>, w\<lparr>git_log := git_log w @ [git_args s]\<rparr>)"
      using patch_fresh [of "Commit_init s r" git w t] fresh assms(1) by simp
    have "c_patch ((Commit_init s r)\<lparr>c_patch := Some t\<rparr>) = Some t" by simp
    from run_memo [OF this, of git up ex as' "w\<lparr>git_log := git_log w @ [git_args s]\<rparr>"] p as Patch
    show ?thesis by (auto split: prod.splits)
  next
    case Files
    obtain x self' w' where f: "files git up ex (Commit_init s r) w = (x, self', w')"
      by (cases "files git up ex (Commit_init s r) w") auto
    from files_fresh [OF fresh(1) fresh(2) _ f, of t] fresh(3) assms(1)
    have k: "c_patch self' = Some t" "git_log w' = git_log w @ [git_args s]" by simp_all
    from run_memo [OF k(1), of git up ex as' w'] k(2) f as Files
    show ?thesis by (auto split: prod.splits)
  qed
qed

lemma no_diff_parse: "parse_patch simple_urlparse member_excluded no_diff_patch {} = ([], None)"
  by (simp add: parse_patch_def no_diff_patch_def ustr_def)

text \<open>The theorem at two accesses to \<open>files\<close> followed by two to \<open>patch\<close>, with a git
  that would answer something else the second time.\<close>

theorem C5_git_invoked_once_witness:
  "git_numbered (length (git_log world0)) (git_args (Some (ustr ''abc123''))) = Inr no_diff_patch
   \<and> [Files, Files, Patch, Patch] \<noteq> []
   \<and> git_log (snd (snd (run git_numbered simple_urlparse member_excluded [Files, Files, Patch, Patch]
                           (Commit_init (Some (ustr ''abc123'')) None) world0)))
       = [[ustr ''show'', ustr ''abc123'', ustr ''--raw'', ustr ''-z'', ustr ''--patch'', ustr ''-m'']]
   \<and> fst (run git_numbered simple_urlparse member_excluded [Files, Files, Patch, Patch]
             (Commit_init (Some (ustr ''abc123'')) None) world0)
       = [FilesAnswer (Inr []), FilesAnswer (Inr []),
          PatchAnswer (Inr no_diff_patch), PatchAnswer (Inr no_diff_patch)]"
proof -
  have a: "git_numbered (length (git_log world0)) (git_args (Some (ustr ''abc123''))) = Inr no_diff_patch"
    by (simp add: git_numbered_def world0_def)
  have b: "[Files, Files, Patch, Patch] \<noteq> []" by simp
  have c: "git_args (Some (ustr ''abc123'')) = [ustr ''show'', ustr ''abc123'', ustr ''--raw'', ustr ''-z'', ustr ''--patch'', ustr ''-m'']"
    by (simp add: git_args_def common_args_def ustr_def)
  have d: "fst (run git_numbered simple_urlparse member_excluded [Files, Files, Patch, Patch]
             (Commit_init (Some (ustr ''abc123'')) None) world0)
       = [FilesAnswer (Inr []), FilesAnswer (Inr []),
          PatchAnswer (Inr no_diff_patch), PatchAnswer (Inr no_diff_patch)]"
    by (simp add: files_def get_files_def patch_def call_git_def git_numbered_def Commit_init_def
        world0_def no_diff_parse)
  from C5_git_invoked_once [where git = git_numbered and w = world0
      and s = "Some (ustr ''abc123'')" and t = no_diff_patch
      and accesses = "[Files, Files, Patch, Patch]" and up = simple_urlparse and ex = member_excluded
      and r = "None :: pystr set option", OF a b] a b d
  show ?thesis by (simp add: c world0_def)
qed

text \<open>A non-empty list is cached; an empty one is not told apart from a list that was
  never computed.\<close>

lemma files_cached:
  "c_files self \<noteq> [] \<Longrightarrow> files git up ex self w = (Inr (c_files self), self, w)"
  by (simp add: files_def)

lemma files_empty_parses_again:
  assumes "c_files self = []" and "c_patch self = Some p"
    and "parse_patch up ex p (exclusion_regexes self) = ([], None)"
  shows "files git up ex self w = (Inr [], self, w\<lparr>parser_runs := parser_runs w + 1\<rparr>)"
  using assms by (simp add: files_def get_files_def patch_def)

text \<open>
  Claim C4. The file set is to be parsed at most once. A commit without a diff parses to
  the empty list, \<open>not self._files\<close> is true of it, and the second access to \<open>files\<close>
  runs the parser a second time: two accesses, two runs of the parser, the same empty
  answer both times.
\<close>

theorem C4_empty_fileset_parsed_again:
  "fst (run (git_constant no_diff_patch) simple_urlparse member_excluded [Files, Files]
          (Commit_init (Some (ustr ''abc123'')) None) world0)
     = [FilesAnswer (Inr []), FilesAnswer (Inr [])]
   \<and> parser_runs (snd (snd (run (git_constant no_diff_patch) simple_urlparse member_excluded [Files, Files]
          (Commit_init (Some (ustr ''abc123'')) None) world0))) = 2"
  by (simp add: files_def get_files_def patch_def call_git_def git_constant_def Commit_init_def
      world0_def no_diff_parse)

section \<open>Decoding\<close>

text \<open>
  Claim C7. For every byte buffer whose encoding is not detected, \<open>_decode_bytes\<close> raises
  nothing: it returns the empty string and logs one warning that names the label.
\<close>

theorem C7_undetected_gives_empty:
  assumes "best raw_document = None"
  shows "decode_bytes best decode raw_document filename logger =
           (Inr [], logger @ [ustr ''Skipping '' @ filename @ ustr '', can't detect encoding''])"
  using assms by (simp add: decode_bytes_def)

text \<open>The theorem at the first bytes of a PNG file and a detector that finds nothing.\<close>

theorem C7_undetected_gives_empty_witness:
  "no_best [0x89, 0x50, 0x4E, 0x47] = None
   \<and> decode_bytes no_best (\<lambda>encoding raw. Inr []) [0x89, 0x50, 0x4E, 0x47] (ustr ''logo.png'') []
       = (Inr [], [ustr ''Skipping logo.png, can't detect encoding''])"
  using C7_undetected_gives_empty [of no_best "[0x89, 0x50, 0x4E, 0x47]" "\<lambda>encoding raw. Inr []" "ustr ''logo.png''" "[]"]
  by (simp add: no_best_def ustr_def)

section \<open>Filtering: the receiver and the new file set\<close>








section \<open>The byte-order mark\<close>

text \<open>The only bytes that the UTF-8 codec decodes to U+FEFF are those of the mark.\<close>

lemma mod_offset:
  fixes x n q :: nat
  assumes "q * n \<le> x" and "x < q * n + n"
  shows "x mod n = x - q * n"
proof -
  define r where "r = x - q * n"
  with assms have r: "r < n" "x = n * q + r" by (simp_all add: mult.commute)
  have "x mod n = (n * q + r) mod n" using r(2) by simp
  also have "\<dots> = r" using r(1) by simp
  finally show ?thesis by (simp add: r_def)
qed

lemma three_byte_feff:
  fixes x y z :: nat
  assumes "x mod 16 * 4096 + y mod 64 * 64 + z mod 64 = 65279"
    and "224 \<le> x" "x \<le> 239" "128 \<le> y" "y \<le> 191" "128 \<le> z" "z \<le> 191"
  shows "x = 239 \<and> y = 187 \<and> z = 191"
proof -
  have k: "x mod 16 = x - 224" using mod_offset [of 14 16 x] assms(2,3) by simp
  have l: "y mod 64 = y - 128" using mod_offset [of 2 64 y] assms(4,5) by simp
  have m: "z mod 64 = z - 128" using mod_offset [of 2 64 z] assms(6,7) by simp
  define a where "a = x - 224"
  define b where "b = y - 128"
  define c where "c = z - 128"
  from assms(2-) have bounds: "a \<le> 15" "b \<le> 63" "c \<le> 63"
    and shifted: "x = 224 + a" "y = 128 + b" "z = 128 + c"
    by (simp_all add: a_def b_def c_def)
  from assms(1) k l m have e: "a * 4096 + b * 64 + c = 65279"
    by (simp add: a_def b_def c_def)
  from e bounds have "a = 15" by linarith
  with e have e2: "b * 64 + c = 3839" by simp
  from e2 bounds have "b = 59" by linarith
  with e2 have "c = 63" by simp
  with \<open>a = 15\<close> \<open>b = 59\<close> shifted show ?thesis by simp
qed

lemma unat_byte_less: "unat (b :: byte) < 256"
proof -
  have "unat b < 2 ^ LENGTH(8)" by (rule unsigned_less)
  then show ?thesis by simp
qed

lemma is_cont_range: "is_cont c \<Longrightarrow> 128 \<le> unat c \<and> unat c \<le> 191"
  by (simp add: is_cont_def word_le_nat_alt)

lemma second_ok_range: "second_ok b c \<Longrightarrow> 128 \<le> unat c \<and> unat c \<le> 191"
  by (simp add: second_ok_def is_cont_def word_le_nat_alt split: if_splits)

lemma step_one: "b < 0x80 \<Longrightarrow> fst (utf8_step b bs) < 256"
  by (simp add: utf8_step_def unat_byte_less)

lemma step_two:
  assumes "\<not> b < 0x80" and "0xC2 \<le> b \<and> b \<le> 0xDF"
  shows "fst (utf8_step b bs) = REPLACEMENT \<or> fst (utf8_step b bs) < 2048"
proof -
  have "unat b mod 32 * 64 + unat c mod 64 < 2048" for c :: byte
  proof -
    have "unat b mod 32 < 32" "unat c mod 64 < 64" by simp_all
    then show ?thesis by linarith
  qed
  with assms show ?thesis
    by (cases bs) (simp_all add: utf8_step_def low6_def)
qed

lemma step_three:
  assumes "\<not> b < 0x80" and "\<not> (0xC2 \<le> b \<and> b \<le> 0xDF)" and "0xE0 \<le> b \<and> b \<le> 0xEF"
    and "fst (utf8_step b bs) = 0xFEFF"
  shows "prefix BOM_UTF8 (b # bs)"
proof -
  from assms(3) have "\<not> b < 0x80" "\<not> b \<le> 0xDF"
    by (simp_all add: word_le_nat_alt word_less_nat_alt)
  with assms(3) have st: "utf8_step b bs =
        (case bs of
           c # d # _ \<Rightarrow>
             if \<not> second_ok b c then (REPLACEMENT, 0)
             else if is_cont d then (unat b mod 16 * 4096 + low6 c * 64 + low6 d, 2)
             else (REPLACEMENT, 1)
         | [c] \<Rightarrow> if second_ok b c then (REPLACEMENT, 1) else (REPLACEMENT, 0)
         | [] \<Rightarrow> (REPLACEMENT, 0))"
    by (simp add: utf8_step_def)
  show ?thesis
  proof (cases bs)
    case Nil
    with st assms(4) show ?thesis by (simp add: REPLACEMENT_def)
  next
    case c: (Cons c r)
    show ?thesis
    proof (cases r)
      case Nil
      with c st assms(4) show ?thesis by (simp add: REPLACEMENT_def split: if_splits)
    next
      case d: (Cons d r')
      with c st assms(4) have ok: "second_ok b c" "is_cont d"
        and v: "unat b mod 16 * 4096 + unat c mod 64 * 64 + unat d mod 64 = 65279"
        by (simp_all add: REPLACEMENT_def low6_def split: if_splits)
      from assms(3) have rb: "224 \<le> unat b" "unat b \<le> 239"
        by (simp_all add: word_le_nat_alt)
      from second_ok_range [OF ok(1)] have rc: "128 \<le> unat c" "unat c \<le> 191" by simp_all
      from is_cont_range [OF ok(2)] have rd: "128 \<le> unat d" "unat d \<le> 191" by simp_all
      from three_byte_feff [OF v rb rc rd]
      have "b = 239" "c = 187" "d = 191"
        by (simp_all add: word_unat_eq_iff)
      with c d show ?thesis by (simp add: BOM_UTF8_def)
    qed
  qed
qed

lemma step_four:
  assumes "0xF0 \<le> b \<and> b \<le> 0xF4"
    and "fst (utf8_step b bs) = 0xFEFF"
  shows False
proof -
  from assms(1) have n: "\<not> b < 0x80" "\<not> b \<le> 0xDF" "\<not> b \<le> 0xEF"
    and rb: "240 \<le> unat b" "unat b \<le> 244"
    by (simp_all add: word_le_nat_alt word_less_nat_alt)
  have m8: "unat b mod 8 = unat b - 240"
    using mod_offset [of 30 8 "unat b"] rb by simp
  have big: "65279 < unat b mod 8 * 262144 + low6 c * 4096 + m" if "second_ok b c" for c m
  proof (cases "b = 0xF0")
    case True
    with that have "144 \<le> unat c" "unat c \<le> 191"
      by (simp_all add: second_ok_def word_le_nat_alt)
    then have "unat c mod 64 = unat c - 128" "16 \<le> unat c - 128"
      using mod_offset [of 2 64 "unat c"] by simp_all
    then show ?thesis by (simp add: low6_def)
  next
    case False
    then have "unat b \<noteq> 240" by (simp add: word_unat_eq_iff)
    with rb m8 have "1 \<le> unat b mod 8" by simp
    then show ?thesis by linarith
  qed
  from n assms(1) have st: "utf8_step b bs =
        (case bs of
           c # d # e # _ \<Rightarrow>
             if \<not> second_ok b c then (REPLACEMENT, 0)
             else if \<not> is_cont d then (REPLACEMENT, 1)
             else if is_cont e
               then (unat b mod 8 * 262144 + low6 c * 4096 + low6 d * 64 + low6 e, 3)
             else (REPLACEMENT, 2)
         | [c, d] \<Rightarrow>
             if \<not> second_ok b c then (REPLACEMENT, 0)
             else if is_cont d then (REPLACEMENT, 2) else (REPLACEMENT, 1)
         | [c] \<Rightarrow> if second_ok b c then (REPLACEMENT, 1) else (REPLACEMENT, 0)
         | [] \<Rightarrow> (REPLACEMENT, 0))"
    by (simp add: utf8_step_def)
  show False
  proof (cases bs)
    case Nil
    with st assms(2) show ?thesis by (simp add: REPLACEMENT_def)
  next
    case c: (Cons c r)
    show ?thesis
    proof (cases r)
      case Nil
      with c st assms(2) show ?thesis by (simp add: REPLACEMENT_def split: if_splits)
    next
      case d: (Cons d r')
      show ?thesis
      proof (cases r')
        case Nil
        with c d st assms(2) show ?thesis by (simp add: REPLACEMENT_def split: if_splits)
      next
        case (Cons e r'')
        with c d st assms(2) have "second_ok b c"
          and "unat b mod 8 * 262144 + low6 c * 4096 + (low6 d * 64 + low6 e) = 65279"
          by (simp_all add: REPLACEMENT_def add.assoc split: if_splits)
        with big [of c "low6 d * 64 + low6 e"] show ?thesis by simp
      qed
    qed
  qed
qed

lemma step_feff:
  assumes "fst (utf8_step b bs) = 0xFEFF"
  shows "prefix BOM_UTF8 (b # bs)"
proof -
  consider (one) "b < 0x80"
    | (two) "\<not> b < 0x80" "0xC2 \<le> b \<and> b \<le> 0xDF"
    | (three) "\<not> b < 0x80" "\<not> (0xC2 \<le> b \<and> b \<le> 0xDF)" "0xE0 \<le> b \<and> b \<le> 0xEF"
    | (four) "0xF0 \<le> b \<and> b \<le> 0xF4"
    | (other) "\<not> b < 0x80" "\<not> (0xC2 \<le> b \<and> b \<le> 0xDF)" "\<not> (0xE0 \<le> b \<and> b \<le> 0xEF)"
        "\<not> (0xF0 \<le> b \<and> b \<le> 0xF4)"
    by blast
  then show ?thesis
  proof cases
    case one
    from step_one [OF one, of bs] assms show ?thesis by simp
  next
    case two
    from step_two [OF two, of bs] assms show ?thesis by (simp add: REPLACEMENT_def)
  next
    case three
    from step_three [OF three assms] show ?thesis .
  next
    case four
    from step_four [OF four assms] show ?thesis ..
  next
    case other
    with assms show ?thesis by (simp add: utf8_step_def REPLACEMENT_def)
  qed
qed

lemma utf8_decode_feff:
  assumes "utf8_decode bs = 0xFEFF # t"
  shows "prefix BOM_UTF8 bs"
proof (cases bs)
  case Nil
  with assms show ?thesis by simp
next
  case (Cons b r)
  with assms have "fst (utf8_step b r) = 0xFEFF" by simp
  with Cons show ?thesis by (simp add: step_feff)
qed

lemma double_bom_decoded: "utf8_decode (drop 3 double_bom) = [0xFEFF, 0x61]"
  by (simp add: double_bom_def BOM_UTF8_def utf8_step_def second_ok_def is_cont_def low6_def)

lemma single_bom_decoded: "utf8_decode (drop 3 single_bom) = [0x61]"
  by (simp add: single_bom_def BOM_UTF8_def utf8_step_def)

text \<open>
  Claim C8, as stated, fails: a buffer detected as UTF-8 that begins with two byte-order
  marks loses the first one only, and the second one is decoded to U+FEFF at position 0
  of the returned text.
\<close>

theorem C8_second_mark_survives:
  "bom_best double_bom = Some utf_8
   \<and> prefix BOM_UTF8 double_bom
   \<and> decode_bytes bom_best (bytes_decode no_other_codec) double_bom (ustr ''notes.txt'') []
       = (Inr [0xFEFF, 0x61], [])"
proof -
  have p: "prefix BOM_UTF8 double_bom" by (simp add: double_bom_def)
  then have b: "bom_best double_bom = Some utf_8" by (simp add: bom_best_def)
  have "length BOM_UTF8 = 3" by (simp add: BOM_UTF8_def)
  with p b show ?thesis
    by (simp add: decode_bytes_def bytes_decode_def double_bom_decoded)
qed

text \<open>
  Claim C8, amended. For every byte buffer whose detected encoding is UTF-8 and which
  begins with the UTF-8 byte-order mark, \<open>_decode_bytes\<close> removes that one mark before
  decoding: the returned text is the UTF-8 decoding of the bytes after the first three,
  and it has no BOM character at position 0 unless those bytes begin with a further
  byte-order mark.
\<close>

theorem C8_strips_one_mark:
  assumes "best raw_document = Some utf_8" and "prefix BOM_UTF8 raw_document"
  shows "decode_bytes best (bytes_decode other) raw_document filename logger
           = (Inr (utf8_decode (drop 3 raw_document)), logger)
         \<and> (\<not> prefix BOM_UTF8 (drop 3 raw_document)
              \<longrightarrow> (\<forall>t. utf8_decode (drop 3 raw_document) \<noteq> 0xFEFF # t))"
proof -
  have "length BOM_UTF8 = 3" by (simp add: BOM_UTF8_def)
  with assms have "decode_bytes best (bytes_decode other) raw_document filename logger
           = (Inr (utf8_decode (drop 3 raw_document)), logger)"
    by (simp add: decode_bytes_def bytes_decode_def)
  moreover have "\<not> prefix BOM_UTF8 (drop 3 raw_document)
              \<longrightarrow> (\<forall>t. utf8_decode (drop 3 raw_document) \<noteq> 0xFEFF # t)"
    using utf8_decode_feff by blast
  ultimately show ?thesis by simp
qed

text \<open>The theorem at the letter \<open>a\<close> after one mark.\<close>

theorem C8_strips_one_mark_witness:
  "bom_best single_bom = Some utf_8
   \<and> prefix BOM_UTF8 single_bom
   \<and> \<not> prefix BOM_UTF8 (drop 3 single_bom)
   \<and> decode_bytes bom_best (bytes_decode no_other_codec) single_bom (ustr ''notes.txt'') []
       = (Inr [0x61], [])"
proof -
  have p: "prefix BOM_UTF8 single_bom" by (simp add: single_bom_def)
  then have b: "bom_best single_bom = Some utf_8" by (simp add: bom_best_def)
  have n: "\<not> prefix BOM_UTF8 (drop 3 single_bom)"
    by (simp add: single_bom_def BOM_UTF8_def)
  from C8_strips_one_mark [where best = bom_best and raw_document = single_bom
      and other = no_other_codec and filename = "ustr ''notes.txt''" and logger = "[]", OF b p]
    p b n
  show ?thesis by (simp add: single_bom_decoded)
qed

section \<open>The size of a file\<close>

text \<open>
  While the content is unread, \<open>is_longer_than\<close> answers by the size on disk and reads
  nothing; once a non-empty text has been read, it answers by the length of the text.
  The empty text is not told apart from unread content.
\<close>

lemma is_longer_than_unread:
  assumes "u_content self = None"
  shows "is_longer_than urlpath fs self sz =
           (case getsize fs (urlpath (url self)) of
              Inl e \<Rightarrow> Inl e
            | Inr n \<Rightarrow> Inr (int n > sz))"
  using assms by (simp add: is_longer_than_def)

lemma is_longer_than_read_nonempty:
  assumes "u_content self = Some text" and "text \<noteq> []"
  shows "is_longer_than urlpath fs self sz = Inr (int (length text) > sz)"
  using assms by (simp add: is_longer_than_def)

lemma is_longer_than_read_empty:
  assumes "u_content self = Some []"
  shows "is_longer_than urlpath fs self sz =
           (case getsize fs (urlpath (url self)) of
              Inl e \<Rightarrow> Inl e
            | Inr n \<Rightarrow> Inr (int n > sz))"
  using assms by (simp add: is_longer_than_def)

lemma binary_read:
  "File_content no_best (bytes_decode no_other_codec) same_path binary_disk
       (File_init (ustr ''logo.png'')) []
     = (Inr [], (File_init (ustr ''logo.png''))\<lparr>u_content := Some []\<rparr>,
        [ustr ''Skipping '' @ ustr ''logo.png'' @ ustr '', can't detect encoding''])"
  by (simp add: File_content_def prepare_def decode_bytes_def no_best_def same_path_def
      binary_disk_def File_init_def)

text \<open>
  Claim C3. Once the content has been read, \<open>is_longer_than\<close> is to answer by the length
  of the decoded text. A file of eight bytes whose encoding is not detected is read as
  the empty text; after the read \<open>is_longer_than 3\<close> still answers by the eight bytes on
  disk and says yes, where the decoded text, of length 0, is not longer than 3.
\<close>

theorem C3_read_empty_answers_by_disk_size:
  "fst (File_content no_best (bytes_decode no_other_codec) same_path binary_disk
          (File_init (ustr ''logo.png'')) []) = Inr []
   \<and> u_content (fst (snd (File_content no_best (bytes_decode no_other_codec) same_path binary_disk
          (File_init (ustr ''logo.png'')) []))) = Some []
   \<and> is_longer_than same_path binary_disk
        (fst (snd (File_content no_best (bytes_decode no_other_codec) same_path binary_disk
          (File_init (ustr ''logo.png'')) []))) 3 = Inr True
   \<and> \<not> int (length ([] :: pystr)) > 3"
  by (simp add: binary_read)
     (simp add: is_longer_than_def getsize_def same_path_def binary_disk_def File_init_def)

end
